theory Spec2Isabelle
  imports Main
begin

section \<open>Voice-command controller (\<open>useVoiceCommands\<close>) and the Scan page callbacks\<close>

text \<open>
  The hook \<open>useVoiceCommands\<close> is modelled as functions over an explicit controller
  state. Everything the hook does beyond computing a value (state setters, the narration
  service, console output, calls into the speech engine, calls of registered callbacks) is
  appended, in program order, to a trace of effects carried by the state.

  Strings are lists of code units; the model covers code units below 256 (the Latin-1
  range), on which \<open>toLowerCase\<close> and \<open>trim\<close> are written out exactly.
  The narration service and the registered callbacks are collaborators outside the hook:
  a call to one of them is recorded in the trace and returns normally.
\<close>

subsection \<open>Data model\<close>

datatype VoiceCommand = Capture | Add | Details | Cart | Help | Start | Stop | Undo

text \<open>The string value of a command tag, as it appears in template strings.\<close>

fun commandName :: "VoiceCommand \<Rightarrow> string" where
  "commandName Capture = ''capture''"
| "commandName Add = ''add''"
| "commandName Details = ''details''"
| "commandName Cart = ''cart''"
| "commandName Help = ''help''"
| "commandName Start = ''start''"
| "commandName Stop = ''stop''"
| "commandName Undo = ''undo''"

text \<open>
  A synthesized keyboard event: \<open>new KeyboardEvent(type, {key, code, ctrlKey, shiftKey})\<close>;
  fields left out of the initialiser take their defaults (empty string, false).
\<close>

record keyboardEvent =
  evType :: string
  evKey :: string
  evCode :: string
  evCtrlKey :: bool
  evShiftKey :: bool

datatype jsError = InvalidStateError

fun errorName :: "jsError \<Rightarrow> string" where
  "errorName InvalidStateError = ''InvalidStateError''"

text \<open>
  Observable effects. A recognition object is identified by the number it received when it
  was constructed.
\<close>

datatype effect =
    SetIsListening bool
  | SetLastCommand VoiceCommand
  | SetRecognitionRef "nat option"
  | Speak string
  | Announce string
  | ConsoleLog "string list"
  | ConsoleError "string list"
  | CallHandler VoiceCommand
  | CallOnCommand VoiceCommand
  | RecognitionStart nat
  | RecognitionStop nat
  | DispatchEvent keyboardEvent

text \<open>
  \<open>UseVoiceCommandsOptions\<close>: every callback is optional. A registered callback is given
  by the effects its body performs when it is called.
\<close>

record options =
  onCommand :: "(VoiceCommand \<Rightarrow> effect list) option"
  onCapture :: "effect list option"
  onAdd :: "effect list option"
  onDetails :: "effect list option"
  onCart :: "effect list option"
  onHelp :: "effect list option"
  onStart :: "effect list option"
  onStop :: "effect list option"
  onUndo :: "effect list option"

text \<open>
  The state of one hook instance: the three \<open>useState\<close> cells, the \<open>recognitionRef\<close>
  cell, and the part of the environment the hook talks to: the counter that names the
  next constructed recognition object, the recognition objects on which the engine is
  currently running, and the trace.
\<close>

record controller =
  isListening :: bool
  isSupported :: bool
  lastCommand :: "VoiceCommand option"
  recognitionRef :: "nat option"
  nextRecognition :: nat
  engineActive :: "nat list"
  trace :: "effect list"

definition initial :: controller where
  "initial = \<lparr> isListening = False, isSupported = False, lastCommand = None,
     recognitionRef = None, nextRecognition = 0, engineActive = [], trace = [] \<rparr>"

subsection \<open>Primitive effects\<close>

definition emit :: "effect \<Rightarrow> controller \<Rightarrow> controller" where
  "emit e s = s\<lparr> trace := trace s @ [e] \<rparr>"

definition emitAll :: "effect list \<Rightarrow> controller \<Rightarrow> controller" where
  "emitAll es s = s\<lparr> trace := trace s @ es \<rparr>"

definition speak :: "string \<Rightarrow> controller \<Rightarrow> controller" where
  "speak text = emit (Speak text)"

definition announce :: "string \<Rightarrow> controller \<Rightarrow> controller" where
  "announce text = emit (Announce text)"

definition setIsListening :: "bool \<Rightarrow> controller \<Rightarrow> controller" where
  "setIsListening b s = emit (SetIsListening b) (s\<lparr> isListening := b \<rparr>)"

definition setIsSupported :: "bool \<Rightarrow> controller \<Rightarrow> controller" where
  "setIsSupported b s = s\<lparr> isSupported := b \<rparr>"

definition setLastCommand :: "VoiceCommand \<Rightarrow> controller \<Rightarrow> controller" where
  "setLastCommand c s = emit (SetLastCommand c) (s\<lparr> lastCommand := Some c \<rparr>)"

definition setRecognitionRef :: "nat option \<Rightarrow> controller \<Rightarrow> controller" where
  "setRecognitionRef r s = emit (SetRecognitionRef r) (s\<lparr> recognitionRef := r \<rparr>)"

text \<open>
  The speech engine, as far as the hook drives it. \<open>new SpeechRecognition()\<close> yields a
  fresh object. \<open>start()\<close> raises \<open>InvalidStateError\<close> on an object that is already
  running and otherwise sets it running; \<open>stop()\<close> ends its run.
\<close>

definition newSpeechRecognition :: "controller \<Rightarrow> nat \<times> controller" where
  "newSpeechRecognition s = (nextRecognition s, s\<lparr> nextRecognition := Suc (nextRecognition s) \<rparr>)"

definition recognitionStart :: "nat \<Rightarrow> controller \<Rightarrow> jsError option \<times> controller" where
  "recognitionStart r s =
     (let s1 = emit (RecognitionStart r) s in
      if r \<in> set (engineActive s) then (Some InvalidStateError, s1)
      else (None, s1\<lparr> engineActive := engineActive s @ [r] \<rparr>))"

definition recognitionStop :: "nat \<Rightarrow> controller \<Rightarrow> controller" where
  "recognitionStop r s = emit (RecognitionStop r) (s\<lparr> engineActive := removeAll r (engineActive s) \<rparr>)"

subsection \<open>String operations\<close>

text \<open>\<open>String.prototype.toLowerCase\<close> on code units below 256.\<close>

definition toLowerChar :: "char \<Rightarrow> char" where
  "toLowerChar c =
     (let n = (of_char c :: nat) in
      if (65 \<le> n \<and> n \<le> 90) \<or> (192 \<le> n \<and> n \<le> 222 \<and> n \<noteq> 215)
      then char_of (n + 32) else c)"

definition toLowerCase :: "string \<Rightarrow> string" where
  "toLowerCase s = map toLowerChar s"

text \<open>
  \<open>String.prototype.trim\<close> removes white space and line terminators from both ends:
  TAB, LF, VT, FF, CR, SPACE and NBSP among the code units below 256.
\<close>

definition isWhiteSpace :: "char \<Rightarrow> bool" where
  "isWhiteSpace c = ((of_char c :: nat) \<in> {9, 10, 11, 12, 13, 32, 160})"

definition trim :: "string \<Rightarrow> string" where
  "trim s = rev (dropWhile isWhiteSpace (rev (dropWhile isWhiteSpace s)))"

text \<open>\<open>s.startsWith(p)\<close> and \<open>s.includes(p)\<close>.\<close>

fun startsWith :: "string \<Rightarrow> string \<Rightarrow> bool" where
  "startsWith s [] = True"
| "startsWith [] (p # ps) = False"
| "startsWith (c # cs) (p # ps) = (c = p \<and> startsWith cs ps)"

fun includesStr :: "string \<Rightarrow> string \<Rightarrow> bool" where
  "includesStr [] p = (p = [])"
| "includesStr (c # cs) p = (startsWith (c # cs) p \<or> includesStr cs p)"

subsection \<open>\<open>processCommand\<close>\<close>

record entry =
  patterns :: "string list"
  command :: VoiceCommand
  handler :: "effect list option"

definition commands :: "options \<Rightarrow> entry list" where
  "commands opts =
     [ \<lparr> patterns = [''capture'', ''take photo'', ''snap'', ''photograph'', ''picture''],
         command = Capture, handler = onCapture opts \<rparr>,
       \<lparr> patterns = [''add'', ''add to cart'', ''add item'', ''buy''],
         command = Add, handler = onAdd opts \<rparr>,
       \<lparr> patterns = [''details'', ''more info'', ''information'', ''tell me more'', ''what is this''],
         command = Details, handler = onDetails opts \<rparr>,
       \<lparr> patterns = [''cart'', ''go to cart'', ''view cart'', ''shopping cart'', ''my cart''],
         command = Cart, handler = onCart opts \<rparr>,
       \<lparr> patterns = [''help'', ''assist'', ''assistance'', ''tutorial''],
         command = Help, handler = onHelp opts \<rparr>,
       \<lparr> patterns = [''start'', ''start camera'', ''open camera'', ''begin''],
         command = Start, handler = onStart opts \<rparr>,
       \<lparr> patterns = [''stop'', ''stop camera'', ''close camera'', ''end''],
         command = Stop, handler = onStop opts \<rparr>,
       \<lparr> patterns = [''undo'', ''cancel'', ''remove last'', ''go back''],
         command = Undo, handler = onUndo opts \<rparr> ]"

text \<open>\<open>patterns.some(pattern => lowerTranscript.includes(pattern))\<close>\<close>

definition matches :: "string \<Rightarrow> entry \<Rightarrow> bool" where
  "matches lowerTranscript e = list_ex (\<lambda>pattern. includesStr lowerTranscript pattern) (patterns e)"

text \<open>The body of the \<open>for\<close> loop when the entry matches, up to its \<open>return command\<close>.\<close>

definition dispatch :: "options \<Rightarrow> entry \<Rightarrow> controller \<Rightarrow> controller" where
  "dispatch opts e s =
     (let s1 = setLastCommand (command e) s;
          s2 = announce (''Command recognized: '' @ commandName (command e)) s1;
          s3 = (case handler e of
                  Some body \<Rightarrow> emitAll body (emit (CallHandler (command e)) s2)
                | None \<Rightarrow> s2);
          s4 = (case onCommand opts of
                  Some body \<Rightarrow> emitAll (body (command e)) (emit (CallOnCommand (command e)) s3)
                | None \<Rightarrow> s3)
      in s4)"

text \<open>The \<open>for\<close> loop over the table; \<open>None\<close> when it runs to the end.\<close>

fun commandLoop :: "options \<Rightarrow> string \<Rightarrow> entry list \<Rightarrow> controller \<Rightarrow> (VoiceCommand \<times> controller) option" where
  "commandLoop opts lowerTranscript [] s = None"
| "commandLoop opts lowerTranscript (e # es) s =
     (if matches lowerTranscript e then Some (command e, dispatch opts e s)
      else commandLoop opts lowerTranscript es s)"

definition processCommand :: "options \<Rightarrow> string \<Rightarrow> controller \<Rightarrow> VoiceCommand option \<times> controller" where
  "processCommand opts transcript s =
     (let lowerTranscript = trim (toLowerCase transcript);
          s0 = emit (ConsoleLog [''Voice command received:'', lowerTranscript]) s
      in case commandLoop opts lowerTranscript (commands opts) s0 of
           Some (c, s') \<Rightarrow> (Some c, s')
         | None \<Rightarrow> (None, announce ''Command not recognized. Try: capture, add, cart, help.'' s0))"

subsection \<open>Session lifecycle\<close>

text \<open>The support check of the mount effect: \<open>setIsSupported(!!SpeechRecognition)\<close>.\<close>

definition checkSupport :: "bool \<Rightarrow> controller \<Rightarrow> controller" where
  "checkSupport hasSpeechRecognition s = setIsSupported hasSpeechRecognition s"

text \<open>The handlers installed on a recognition object by \<open>startListening\<close>.\<close>

definition onstart :: "controller \<Rightarrow> controller" where
  "onstart s =
     announce ''Voice commands activated. Say a command like capture, add, or cart.''
       (setIsListening True s)"

definition onend :: "nat \<Rightarrow> controller \<Rightarrow> controller" where
  "onend recognition s =
     (let s1 = setIsListening False s in
      if recognitionRef s1 = Some recognition then
        (case recognitionStart recognition s1 of
           (None, s2) \<Rightarrow> s2
         | (Some e, s2) \<Rightarrow> emit (ConsoleLog [''Recognition ended'']) s2)
      else s1)"

definition onerror :: "string \<Rightarrow> controller \<Rightarrow> controller" where
  "onerror err s =
     (let s1 = emit (ConsoleError [''Speech recognition error:'', err]) s in
      if err = ''not-allowed'' then
        setIsListening False
          (speak ''Microphone permission denied. Please allow microphone access.'' s1)
      else if err \<noteq> ''no-speech'' \<and> err \<noteq> ''aborted'' then
        announce (''Voice error: '' @ err) s1
      else s1)"

text \<open>\<open>onresult\<close>, for a result whose first alternative carries the transcript.\<close>

definition onresult :: "options \<Rightarrow> bool \<Rightarrow> string \<Rightarrow> controller \<Rightarrow> controller" where
  "onresult opts isFinal transcript s =
     (if isFinal then snd (processCommand opts transcript s) else s)"

definition startListening :: "controller \<Rightarrow> controller" where
  "startListening s =
     (if \<not> isSupported s then
        speak ''Voice commands are not supported in this browser.'' s
      else
        (let (recognition, s1) = newSpeechRecognition s;
             s2 = setRecognitionRef (Some recognition) s1
         in case recognitionStart recognition s2 of
              (None, s3) \<Rightarrow> s3
            | (Some e, s3) \<Rightarrow>
                emit (ConsoleError [''Failed to start recognition:'', errorName e]) s3))"

definition stopListening :: "controller \<Rightarrow> controller" where
  "stopListening s =
     (case recognitionRef s of
        Some recognition \<Rightarrow>
          (let s1 = setRecognitionRef None s;
               s2 = recognitionStop recognition s1;
               s3 = setIsListening False s2
           in announce ''Voice commands deactivated.'' s3)
      | None \<Rightarrow> s)"

definition toggleListening :: "controller \<Rightarrow> controller" where
  "toggleListening s = (if isListening s then stopListening s else startListening s)"

text \<open>
  What can happen to a controller: a call of one of its three control actions, or an event
  the engine delivers to the handlers of a recognition object. Before the engine delivers
  \<open>end\<close> for an object, that object has stopped running.
\<close>

datatype action =
    CallStart
  | CallStop
  | CallToggle
  | EvStart nat
  | EvEnd nat
  | EvError nat string
  | EvResult nat bool string

fun step :: "options \<Rightarrow> controller \<Rightarrow> action \<Rightarrow> controller" where
  "step opts s CallStart = startListening s"
| "step opts s CallStop = stopListening s"
| "step opts s CallToggle = toggleListening s"
| "step opts s (EvStart r) = onstart s"
| "step opts s (EvEnd r) = onend r (s\<lparr> engineActive := removeAll r (engineActive s) \<rparr>)"
| "step opts s (EvError r err) = onerror err s"
| "step opts s (EvResult r isFinal transcript) = onresult opts isFinal transcript s"

definition run :: "options \<Rightarrow> controller \<Rightarrow> action list \<Rightarrow> controller" where
  "run opts s acts = foldl (step opts) s acts"

subsection \<open>The Scan page\<close>

text \<open>
  The page state read by the callbacks; \<open>currentProduct\<close> is an object or \<open>null\<close>.
\<close>

record 'p appState =
  currentProduct :: "'p option"

text \<open>
  The \<open>onAdd\<close> callback the page registers: \<open>speak\<close> is the narration service,
  \<open>window.dispatchEvent\<close> delivers the synthesized event.
\<close>

definition keydown :: "string \<Rightarrow> keyboardEvent" where
  "keydown k = \<lparr> evType = ''keydown'', evKey = k, evCode = [], evCtrlKey = False, evShiftKey = False \<rparr>"

definition scanOnAdd :: "'p appState \<Rightarrow> effect list" where
  "scanOnAdd state =
     (if currentProduct state \<noteq> None then
        [Speak ''Adding item to cart.'', DispatchEvent (keydown ''a'')]
      else
        [Speak ''No product selected. Please scan a product first.''])"

text \<open>The default \<open>options = {}\<close>: no callback registered.\<close>

definition noOptions :: options where
  "noOptions = \<lparr> onCommand = None, onCapture = None, onAdd = None, onDetails = None,
     onCart = None, onHelp = None, onStart = None, onStop = None, onUndo = None \<rparr>"

subsection \<open>Specification vocabulary\<close>

text \<open>A phrase \<open>p\<close> occurs in \<open>s\<close> as a substring.\<close>

definition isSubstring :: "string \<Rightarrow> string \<Rightarrow> bool" where
  "isSubstring p s = (\<exists>pre post. s = pre @ p @ post)"

text \<open>
  A set of options used in the examples: the Scan page's \<open>onAdd\<close> with a product
  selected, and a catch-all callback that logs the command tag.
\<close>

definition exampleOptions :: options where
  "exampleOptions = noOptions\<lparr> onAdd := Some (scanOnAdd \<lparr> currentProduct = Some (0::nat) \<rparr>),
      onCommand := Some (\<lambda>c. [ConsoleLog [commandName c]]) \<rparr>"

section \<open>Properties\<close>

subsection \<open>Substring test and the loop over the table\<close>

lemma startsWith_iff: "startsWith s p \<longleftrightarrow> (\<exists>post. s = p @ post)"
  by (induction s p rule: startsWith.induct) auto

lemma includesStr_iff: "includesStr s p \<longleftrightarrow> (\<exists>pre post. s = pre @ p @ post)"
proof (induction s)
  case Nil
  then show ?case by auto
next
  case (Cons c cs)
  show ?case
  proof
    assume "includesStr (c # cs) p"
    then consider "startsWith (c # cs) p" | "includesStr cs p" by auto
    then show "\<exists>pre post. c # cs = pre @ p @ post"
    proof cases
      case 1
      then obtain post where "c # cs = p @ post" using startsWith_iff by blast
      then have "c # cs = [] @ p @ post" by simp
      then show ?thesis by blast
    next
      case 2
      then obtain pre post where "cs = pre @ p @ post" using Cons.IH by blast
      then have "c # cs = (c # pre) @ p @ post" by simp
      then show ?thesis by blast
    qed
  next
    assume "\<exists>pre post. c # cs = pre @ p @ post"
    then obtain pre post where eq: "c # cs = pre @ p @ post" by blast
    show "includesStr (c # cs) p"
    proof (cases pre)
      case Nil
      with eq have "startsWith (c # cs) p" using startsWith_iff by auto
      then show ?thesis by simp
    next
      case (Cons a pre')
      with eq have "cs = pre' @ p @ post" by simp
      then have "includesStr cs p" using Cons.IH by blast
      then show ?thesis by simp
    qed
  qed
qed

lemma includesStr_isSubstring: "includesStr s p = isSubstring p s"
  by (simp add: includesStr_iff isSubstring_def)

lemma matches_iff: "matches lt e \<longleftrightarrow> (\<exists>p\<in>set (patterns e). isSubstring p lt)"
  by (simp add: matches_def list_ex_iff includesStr_isSubstring)

lemma commandLoop_None: "commandLoop opts lt es s = None \<longleftrightarrow> (\<forall>e\<in>set es. \<not> matches lt e)"
  by (induction es) auto

lemma commandLoop_first:
  "es = before @ e # after \<Longrightarrow> \<forall>e'\<in>set before. \<not> matches lt e' \<Longrightarrow> matches lt e
   \<Longrightarrow> commandLoop opts lt es s = Some (command e, dispatch opts e s)"
  by (induction before arbitrary: es) auto

lemma first_match_split:
  "\<exists>e\<in>set es. P e \<Longrightarrow> \<exists>before e after. es = before @ e # after \<and> (\<forall>e'\<in>set before. \<not> P e') \<and> P e"
  by (metis split_list_first_prop)

subsection \<open>Classification\<close>

text \<open>
  C1. When the lowercased, trimmed transcript contains a configured trigger phrase as a
  substring, \<open>processCommand\<close> returns the command of the first table entry one of
  whose phrases occurs in it: no entry before it has such a phrase. The table order is
  capture, add, details, cart, help, start, stop, undo. The transcript
  "please add this to cart" yields add, and "take a snapshot" yields capture.
\<close>

theorem processCommand_first_match:
  assumes "\<exists>e\<in>set (commands opts). \<exists>p\<in>set (patterns e). isSubstring p (trim (toLowerCase t))"
  shows "(\<exists>before e after. commands opts = before @ e # after
            \<and> (\<forall>e'\<in>set before. \<forall>p\<in>set (patterns e'). \<not> isSubstring p (trim (toLowerCase t)))
            \<and> (\<exists>p\<in>set (patterns e). isSubstring p (trim (toLowerCase t)))
            \<and> fst (processCommand opts t s) = Some (command e))
       \<and> map command (commands opts) = [Capture, Add, Details, Cart, Help, Start, Stop, Undo]
       \<and> fst (processCommand opts ''please add this to cart'' s) = Some Add
       \<and> fst (processCommand opts ''take a snapshot'' s) = Some Capture"
proof -
  let ?lt = "trim (toLowerCase t)"
  from assms have "\<exists>e\<in>set (commands opts). matches ?lt e"
    by (simp add: matches_iff)
  then obtain before e after where
    split: "commands opts = before @ e # after" and
    none: "\<forall>e'\<in>set before. \<not> matches ?lt e'" and
    hit: "matches ?lt e"
    using first_match_split [of "commands opts" "matches ?lt"] by blast
  have "commandLoop opts ?lt (commands opts) (emit (ConsoleLog [''Voice command received:'', ?lt]) s)
          = Some (command e, dispatch opts e (emit (ConsoleLog [''Voice command received:'', ?lt]) s))"
    using commandLoop_first [OF split none hit] .
  then have res: "fst (processCommand opts t s) = Some (command e)"
    by (simp add: processCommand_def)
  have first: "\<exists>before e after. commands opts = before @ e # after
            \<and> (\<forall>e'\<in>set before. \<forall>p\<in>set (patterns e'). \<not> isSubstring p ?lt)
            \<and> (\<exists>p\<in>set (patterns e). isSubstring p ?lt)
            \<and> fst (processCommand opts t s) = Some (command e)"
    using split none hit res unfolding matches_iff by blast
  have order: "map command (commands opts) = [Capture, Add, Details, Cart, Help, Start, Stop, Undo]"
    by (simp add: commands_def)
  have add: "fst (processCommand opts ''please add this to cart'' s) = Some Add"
    by (simp add: processCommand_def commands_def matches_def trim_def toLowerCase_def
        toLowerChar_def isWhiteSpace_def)
  have capture: "fst (processCommand opts ''take a snapshot'' s) = Some Capture"
    by (simp add: processCommand_def commands_def matches_def trim_def toLowerCase_def
        toLowerChar_def isWhiteSpace_def)
  from first order add capture show ?thesis by blast
qed

text \<open>An instance: a transcript with phrases of both add and cart.\<close>

lemma lowered_example: "trim (toLowerCase '' Buy milk, then go to my CART '') = ''buy milk, then go to my cart''"
  by code_simp

theorem processCommand_first_match_witness:
  "(\<exists>e\<in>set (commands noOptions). \<exists>p\<in>set (patterns e).
       isSubstring p (trim (toLowerCase '' Buy milk, then go to my CART '')))
   \<and> (\<exists>before e after. commands noOptions = before @ e # after
        \<and> (\<forall>e'\<in>set before. \<forall>p\<in>set (patterns e').
              \<not> isSubstring p (trim (toLowerCase '' Buy milk, then go to my CART '')))
        \<and> (\<exists>p\<in>set (patterns e). isSubstring p (trim (toLowerCase '' Buy milk, then go to my CART '')))
        \<and> fst (processCommand noOptions '' Buy milk, then go to my CART '' initial) = Some (command e))
   \<and> fst (processCommand noOptions '' Buy milk, then go to my CART '' initial) = Some Add"
proof -
  have h: "\<exists>e\<in>set (commands noOptions). \<exists>p\<in>set (patterns e).
       isSubstring p (trim (toLowerCase '' Buy milk, then go to my CART ''))"
    unfolding lowered_example
    by (simp add: commands_def includesStr_isSubstring [symmetric])
  have r: "fst (processCommand noOptions '' Buy milk, then go to my CART '' initial) = Some Add"
    by code_simp
  show ?thesis
    using h r processCommand_first_match [OF h, of initial] by blast
qed

lemma dispatch_eq:
  "dispatch opts e s = s\<lparr> lastCommand := Some (command e),
       trace := trace s @ [SetLastCommand (command e),
                  Announce (''Command recognized: '' @ commandName (command e))]
           @ (case handler e of None \<Rightarrow> [] | Some body \<Rightarrow> CallHandler (command e) # body)
           @ (case onCommand opts of None \<Rightarrow> []
              | Some body \<Rightarrow> CallOnCommand (command e) # body (command e)) \<rparr>"
  by (simp add: dispatch_def setLastCommand_def announce_def emit_def emitAll_def
      split: option.splits)

text \<open>
  C3. When an entry is the first one with a phrase occurring in the normalised transcript,
  \<open>processCommand\<close> performs, in this order and after its console line: the record of
  the command as \<open>lastCommand\<close>, one confirmation announcement naming the command,
  the call of the entry's callback if one is registered, the call of the catch-all callback
  with the command tag if one is registered; and it returns the command. The entry's
  callback is the option named after the command.
\<close>

theorem processCommand_match_effects:
  assumes "commands opts = before @ e # after"
    and "\<forall>e'\<in>set before. \<forall>p\<in>set (patterns e'). \<not> isSubstring p (trim (toLowerCase t))"
    and "\<exists>p\<in>set (patterns e). isSubstring p (trim (toLowerCase t))"
  shows "processCommand opts t s =
           (Some (command e),
            s\<lparr> lastCommand := Some (command e),
               trace := trace s
                 @ [ConsoleLog [''Voice command received:'', trim (toLowerCase t)],
                    SetLastCommand (command e),
                    Announce (''Command recognized: '' @ commandName (command e))]
                 @ (case handler e of None \<Rightarrow> []
                    | Some body \<Rightarrow> CallHandler (command e) # body)
                 @ (case onCommand opts of None \<Rightarrow> []
                    | Some body \<Rightarrow> CallOnCommand (command e) # body (command e)) \<rparr>)
      \<and> map (\<lambda>e. (command e, handler e)) (commands opts) =
          [(Capture, onCapture opts), (Add, onAdd opts), (Details, onDetails opts),
           (Cart, onCart opts), (Help, onHelp opts), (Start, onStart opts),
           (Stop, onStop opts), (Undo, onUndo opts)]"
proof -
  let ?lt = "trim (toLowerCase t)"
  let ?s0 = "emit (ConsoleLog [''Voice command received:'', ?lt]) s"
  have none: "\<forall>e'\<in>set before. \<not> matches ?lt e'"
    using assms(2) by (simp add: matches_iff)
  have hit: "matches ?lt e"
    using assms(3) by (simp add: matches_iff)
  have loop: "commandLoop opts ?lt (commands opts) ?s0 = Some (command e, dispatch opts e ?s0)"
    using commandLoop_first [OF assms(1) none hit] .
  have "processCommand opts t s = (Some (command e), dispatch opts e ?s0)"
    using loop by (simp add: processCommand_def)
  then have run: "processCommand opts t s =
           (Some (command e),
            s\<lparr> lastCommand := Some (command e),
               trace := trace s
                 @ [ConsoleLog [''Voice command received:'', trim (toLowerCase t)],
                    SetLastCommand (command e),
                    Announce (''Command recognized: '' @ commandName (command e))]
                 @ (case handler e of None \<Rightarrow> []
                    | Some body \<Rightarrow> CallHandler (command e) # body)
                 @ (case onCommand opts of None \<Rightarrow> []
                    | Some body \<Rightarrow> CallOnCommand (command e) # body (command e)) \<rparr>)"
    by (simp add: dispatch_eq emit_def)
  have table: "map (\<lambda>e. (command e, handler e)) (commands opts) =
          [(Capture, onCapture opts), (Add, onAdd opts), (Details, onDetails opts),
           (Cart, onCart opts), (Help, onHelp opts), (Start, onStart opts),
           (Stop, onStop opts), (Undo, onUndo opts)]"
    by (simp add: commands_def)
  from run table show ?thesis by (rule conjI)
qed

theorem processCommand_match_effects_witness:
  "processCommand exampleOptions ''Add to cart'' initial =
     (Some Add,
      initial\<lparr> lastCommand := Some Add,
         trace := [ConsoleLog [''Voice command received:'', ''add to cart''],
                   SetLastCommand Add,
                   Announce ''Command recognized: add'',
                   CallHandler Add,
                   Speak ''Adding item to cart.'',
                   DispatchEvent (keydown ''a''),
                   CallOnCommand Add,
                   ConsoleLog [''add'']] \<rparr>)"
proof -
  have lt: "trim (toLowerCase ''Add to cart'') = ''add to cart''"
    by code_simp
  have split: "commands exampleOptions =
      [\<lparr> patterns = [''capture'', ''take photo'', ''snap'', ''photograph'', ''picture''],
         command = Capture, handler = None \<rparr>]
      @ \<lparr> patterns = [''add'', ''add to cart'', ''add item'', ''buy''],
          command = Add, handler = Some (scanOnAdd \<lparr> currentProduct = Some (0::nat) \<rparr>) \<rparr>
      # drop 2 (commands exampleOptions)"
    by (simp add: commands_def exampleOptions_def noOptions_def)
  have none: "\<forall>e'\<in>set [\<lparr> patterns = [''capture'', ''take photo'', ''snap'', ''photograph'', ''picture''],
         command = Capture, handler = None \<rparr>]. \<forall>p\<in>set (patterns e').
           \<not> isSubstring p (trim (toLowerCase ''Add to cart''))"
    unfolding lt by (simp add: includesStr_isSubstring [symmetric])
  have hit: "\<exists>p\<in>set (patterns \<lparr> patterns = [''add'', ''add to cart'', ''add item'', ''buy''],
          command = Add, handler = Some (scanOnAdd \<lparr> currentProduct = Some (0::nat) \<rparr>) \<rparr>).
           isSubstring p (trim (toLowerCase ''Add to cart''))"
    unfolding lt by (simp add: includesStr_isSubstring [symmetric])
  show ?thesis
    using processCommand_match_effects [OF split none hit, of initial]
    by (simp add: lt exampleOptions_def noOptions_def scanOnAdd_def initial_def)
qed

text \<open>
  C4. When no configured phrase occurs in the normalised transcript, \<open>processCommand\<close>
  returns no command; besides its console line it makes exactly one announcement, the
  "not recognized" one listing example commands, and nothing else: no callback is called
  and every field of the state, \<open>lastCommand\<close> included, keeps its value.
\<close>

theorem processCommand_no_match:
  assumes "\<forall>e\<in>set (commands opts). \<forall>p\<in>set (patterns e). \<not> isSubstring p (trim (toLowerCase t))"
  shows "processCommand opts t s =
           (None,
            s\<lparr> trace := trace s
                 @ [ConsoleLog [''Voice command received:'', trim (toLowerCase t)],
                    Announce ''Command not recognized. Try: capture, add, cart, help.''] \<rparr>)"
proof -
  let ?lt = "trim (toLowerCase t)"
  have "\<forall>e\<in>set (commands opts). \<not> matches ?lt e"
    using assms by (simp add: matches_iff)
  then have "commandLoop opts ?lt (commands opts)
               (emit (ConsoleLog [''Voice command received:'', ?lt]) s) = None"
    by (simp add: commandLoop_None)
  then show ?thesis
    by (simp add: processCommand_def announce_def emit_def)
qed

theorem processCommand_no_match_witness:
  "processCommand exampleOptions ''Hello world'' initial =
     (None,
      initial\<lparr> trace := [ConsoleLog [''Voice command received:'', ''hello world''],
                   Announce ''Command not recognized. Try: capture, add, cart, help.''] \<rparr>)
   \<and> lastCommand (snd (processCommand exampleOptions ''Hello world'' initial)) = lastCommand initial"
proof -
  have lt: "trim (toLowerCase ''Hello world'') = ''hello world''"
    by code_simp
  have h: "\<forall>e\<in>set (commands exampleOptions). \<forall>p\<in>set (patterns e).
             \<not> isSubstring p (trim (toLowerCase ''Hello world''))"
    unfolding lt by (simp add: commands_def includesStr_isSubstring [symmetric])
  show ?thesis
    using processCommand_no_match [OF h, of initial]
    by (simp add: lt initial_def)
qed

subsection \<open>Session lifecycle\<close>

text \<open>
  C5. With \<open>isSupported\<close> false, \<open>startListening\<close> speaks the unsupported-browser
  notice once and changes nothing else: \<open>isListening\<close> and the session handle keep
  their values.
\<close>

theorem startListening_unsupported:
  assumes "\<not> isSupported s"
  shows "startListening s =
           s\<lparr> trace := trace s @ [Speak ''Voice commands are not supported in this browser.''] \<rparr>"
  using assms by (simp add: startListening_def speak_def emit_def)

theorem startListening_unsupported_witness:
  "startListening initial =
     initial\<lparr> trace := [Speak ''Voice commands are not supported in this browser.''] \<rparr>
   \<and> isListening (startListening initial) = False
   \<and> recognitionRef (startListening initial) = None
   \<and> engineActive (startListening initial) = []"
proof -
  have h: "\<not> isSupported initial" by (simp add: initial_def)
  show ?thesis
    using startListening_unsupported [OF h] by (simp add: initial_def)
qed

text \<open>
  C2. Two calls of \<open>startListening\<close> in a supporting browser, with no stop between
  them, leave two recognition objects running: the second call overwrites the handle and
  never stops the object the first call started. Two calls of \<open>toggleListening\<close>
  before the engine's start event do the same.
\<close>

theorem startListening_twice_two_active:
  "engineActive (run noOptions (checkSupport True initial) [CallStart, CallStart]) = [0, 1]
   \<and> recognitionRef (run noOptions (checkSupport True initial) [CallStart, CallStart]) = Some 1
   \<and> trace (run noOptions (checkSupport True initial) [CallStart, CallStart]) =
       [SetRecognitionRef (Some 0), RecognitionStart 0,
        SetRecognitionRef (Some 1), RecognitionStart 1]
   \<and> run noOptions (checkSupport True initial) [CallToggle, CallToggle]
       = run noOptions (checkSupport True initial) [CallStart, CallStart]"
  by (simp add: run_def toggleListening_def startListening_def checkSupport_def setIsSupported_def
      initial_def newSpeechRecognition_def setRecognitionRef_def recognitionStart_def emit_def)

text \<open>Which fields the handlers and control actions touch.\<close>

lemma commandLoop_dispatch:
  "commandLoop opts lt es s = Some (c, s') \<Longrightarrow> \<exists>e. s' = dispatch opts e s"
  by (induction es) (auto split: if_splits)

lemma processCommand_frame:
  "recognitionRef (snd (processCommand opts t s)) = recognitionRef s
   \<and> nextRecognition (snd (processCommand opts t s)) = nextRecognition s
   \<and> engineActive (snd (processCommand opts t s)) = engineActive s
   \<and> isListening (snd (processCommand opts t s)) = isListening s"
proof (cases "commandLoop opts (trim (toLowerCase t)) (commands opts)
                (emit (ConsoleLog [''Voice command received:'', trim (toLowerCase t)]) s)")
  case None
  then show ?thesis
    by (simp add: processCommand_def announce_def emit_def)
next
  case (Some a)
  obtain c s' where a: "a = (c, s')" by (cases a)
  with Some obtain e where
    "s' = dispatch opts e (emit (ConsoleLog [''Voice command received:'', trim (toLowerCase t)]) s)"
    using commandLoop_dispatch by blast
  with Some a show ?thesis
    by (simp add: processCommand_def dispatch_eq emit_def)
qed

lemma startListening_frame:
  "recognitionRef (startListening s) = (if isSupported s then Some (nextRecognition s) else recognitionRef s)
   \<and> nextRecognition (startListening s) = (if isSupported s then Suc (nextRecognition s) else nextRecognition s)"
  by (simp add: startListening_def speak_def newSpeechRecognition_def setRecognitionRef_def
      recognitionStart_def emit_def Let_def)

lemma stopListening_frame:
  "recognitionRef (stopListening s) = None \<and> nextRecognition (stopListening s) = nextRecognition s"
  by (simp add: stopListening_def setRecognitionRef_def recognitionStop_def setIsListening_def
      announce_def emit_def Let_def split: option.splits)

lemma onend_frame:
  "recognitionRef (onend r s) = recognitionRef s \<and> nextRecognition (onend r s) = nextRecognition s"
  by (simp add: onend_def setIsListening_def recognitionStart_def emit_def Let_def)

lemma onstart_frame:
  "recognitionRef (onstart s) = recognitionRef s \<and> nextRecognition (onstart s) = nextRecognition s"
  by (simp add: onstart_def setIsListening_def announce_def emit_def)

lemma onerror_frame:
  "recognitionRef (onerror err s) = recognitionRef s \<and> nextRecognition (onerror err s) = nextRecognition s"
  by (simp add: onerror_def setIsListening_def speak_def announce_def emit_def Let_def)

lemma onresult_frame:
  "recognitionRef (onresult opts f t s) = recognitionRef s
   \<and> nextRecognition (onresult opts f t s) = nextRecognition s"
  by (simp add: onresult_def processCommand_frame)

text \<open>
  A step leaves the handle as it is, clears it, or installs the object constructed in
  this step; the counter never decreases.
\<close>

lemma step_handle:
  "nextRecognition s \<le> nextRecognition (step opts s a)
   \<and> (recognitionRef (step opts s a) = recognitionRef s
      \<or> recognitionRef (step opts s a) = None
      \<or> (recognitionRef (step opts s a) = Some (nextRecognition s)
          \<and> nextRecognition (step opts s a) = Suc (nextRecognition s)))"
proof (cases a)
  case CallStart
  then show ?thesis by (simp add: startListening_frame)
next
  case CallStop
  then show ?thesis by (simp add: stopListening_frame)
next
  case CallToggle
  then show ?thesis by (simp add: toggleListening_def startListening_frame stopListening_frame)
next
  case (EvStart x)
  then show ?thesis by (simp add: onstart_frame)
next
  case (EvEnd x)
  then show ?thesis by (simp add: onend_frame)
next
  case (EvError x err)
  then show ?thesis by (simp add: onerror_frame)
next
  case (EvResult x isFinal transcript)
  then show ?thesis by (simp add: onresult_frame)
qed

lemma step_keeps_released:
  assumes "recognitionRef s \<noteq> Some r" and "r < nextRecognition s"
  shows "recognitionRef (step opts s a) \<noteq> Some r \<and> r < nextRecognition (step opts s a)"
  using assms step_handle [of s opts a] by auto

lemma run_keeps_released:
  "recognitionRef s \<noteq> Some r \<Longrightarrow> r < nextRecognition s \<Longrightarrow>
   recognitionRef (run opts s acts) \<noteq> Some r \<and> r < nextRecognition (run opts s acts)"
  unfolding run_def
proof (induction acts arbitrary: s)
  case Nil
  then show ?case by simp
next
  case (Cons a acts)
  have "recognitionRef (step opts s a) \<noteq> Some r \<and> r < nextRecognition (step opts s a)"
    using step_keeps_released [OF Cons.prems] .
  then show ?case using Cons.IH by simp
qed

lemma step_ref_allocated:
  assumes "\<forall>r. recognitionRef s = Some r \<longrightarrow> r < nextRecognition s"
  shows "\<forall>r. recognitionRef (step opts s a) = Some r \<longrightarrow> r < nextRecognition (step opts s a)"
  using assms step_handle [of s opts a] by (metis lessI less_le_trans option.inject option.distinct(1))

text \<open>In every state reached from the initial one, an owned handle was constructed earlier.\<close>

lemma reachable_ref_allocated:
  "\<forall>r. recognitionRef (run opts (checkSupport b initial) acts) = Some r \<longrightarrow>
       r < nextRecognition (run opts (checkSupport b initial) acts)"
proof (induction acts rule: rev_induct)
  case Nil
  then show ?case
    by (simp add: run_def checkSupport_def setIsSupported_def initial_def)
next
  case (snoc a acts)
  have "run opts (checkSupport b initial) (acts @ [a])
          = step opts (run opts (checkSupport b initial) acts) a"
    by (simp add: run_def)
  then show ?case
    using step_ref_allocated [OF snoc.IH, of opts a] by simp
qed

lemma stopListening_owned:
  "recognitionRef s = Some r \<Longrightarrow>
   stopListening s =
     s\<lparr> isListening := False, recognitionRef := None,
        engineActive := removeAll r (engineActive s),
        trace := trace s @ [SetRecognitionRef None, RecognitionStop r, SetIsListening False,
                   Announce ''Voice commands deactivated.''] \<rparr>"
  by (simp add: stopListening_def setRecognitionRef_def recognitionStop_def setIsListening_def
      announce_def emit_def)

lemma end_event_not_owner:
  "recognitionRef s \<noteq> Some r \<Longrightarrow>
   step opts s (EvEnd r) =
     s\<lparr> isListening := False, engineActive := removeAll r (engineActive s),
        trace := trace s @ [SetIsListening False] \<rparr>"
  by (simp add: onend_def setIsListening_def emit_def)

text \<open>
  C6. With a session handle owned, \<open>stopListening\<close> clears the handle, then tells the
  engine to stop that object, then sets \<open>isListening\<close> to false, then announces the
  deactivation once. Whatever happens afterwards, an \<open>end\<close> event for that object
  only sets \<open>isListening\<close> to false: it does not call \<open>start\<close> again.
\<close>

theorem stopListening_suppresses_restart:
  assumes "recognitionRef s = Some r" and "r < nextRecognition s"
  shows "stopListening s =
           s\<lparr> isListening := False, recognitionRef := None,
              engineActive := removeAll r (engineActive s),
              trace := trace s @ [SetRecognitionRef None, RecognitionStop r, SetIsListening False,
                         Announce ''Voice commands deactivated.''] \<rparr>
     \<and> (\<forall>acts. step opts (run opts (stopListening s) acts) (EvEnd r) =
           (run opts (stopListening s) acts)
             \<lparr> isListening := False,
               engineActive := removeAll r (engineActive (run opts (stopListening s) acts)),
               trace := trace (run opts (stopListening s) acts) @ [SetIsListening False] \<rparr>)"
proof -
  have stop: "stopListening s =
           s\<lparr> isListening := False, recognitionRef := None,
              engineActive := removeAll r (engineActive s),
              trace := trace s @ [SetRecognitionRef None, RecognitionStop r, SetIsListening False,
                         Announce ''Voice commands deactivated.''] \<rparr>"
    using assms(1) by (rule stopListening_owned)
  have released: "recognitionRef (stopListening s) \<noteq> Some r \<and> r < nextRecognition (stopListening s)"
    using assms(2) by (simp add: stop)
  have later: "step opts (run opts (stopListening s) acts) (EvEnd r) =
           (run opts (stopListening s) acts)
             \<lparr> isListening := False,
               engineActive := removeAll r (engineActive (run opts (stopListening s) acts)),
               trace := trace (run opts (stopListening s) acts) @ [SetIsListening False] \<rparr>" for acts
  proof -
    have "recognitionRef (run opts (stopListening s) acts) \<noteq> Some r"
      using run_keeps_released [of "stopListening s" r opts acts] released by blast
    then show ?thesis by (rule end_event_not_owner)
  qed
  from stop later show ?thesis by blast
qed

theorem stopListening_suppresses_restart_witness:
  "trace (stopListening (run noOptions (checkSupport True initial) [CallStart, EvStart 0])) =
     [SetRecognitionRef (Some 0), RecognitionStart 0, SetIsListening True,
      Announce ''Voice commands activated. Say a command like capture, add, or cart.'',
      SetRecognitionRef None, RecognitionStop 0, SetIsListening False,
      Announce ''Voice commands deactivated.'']
   \<and> trace (run noOptions (checkSupport True initial) [CallStart, EvStart 0, CallStop, EvEnd 0]) =
     [SetRecognitionRef (Some 0), RecognitionStart 0, SetIsListening True,
      Announce ''Voice commands activated. Say a command like capture, add, or cart.'',
      SetRecognitionRef None, RecognitionStop 0, SetIsListening False,
      Announce ''Voice commands deactivated.'', SetIsListening False]
   \<and> engineActive (run noOptions (checkSupport True initial)
        [CallStart, EvStart 0, CallStop, CallStart, EvStart 1, EvEnd 0]) = [1]"
proof -
  let ?s = "run noOptions (checkSupport True initial) [CallStart, EvStart 0]"
  have s: "?s = \<lparr> isListening = True, isSupported = True, lastCommand = None,
      recognitionRef = Some 0, nextRecognition = 1, engineActive = [0],
      trace = [SetRecognitionRef (Some 0), RecognitionStart 0, SetIsListening True,
        Announce ''Voice commands activated. Say a command like capture, add, or cart.''] \<rparr>"
    by (simp add: run_def startListening_def checkSupport_def setIsSupported_def
      initial_def newSpeechRecognition_def setRecognitionRef_def recognitionStart_def
      onstart_def setIsListening_def announce_def emit_def)
  have h1: "recognitionRef ?s = Some 0" by (simp add: s)
  have h2: "0 < nextRecognition ?s" by (simp add: s)
  have r1: "run noOptions (checkSupport True initial) [CallStart, EvStart 0, CallStop, EvEnd 0]
             = step noOptions (run noOptions (stopListening ?s) []) (EvEnd 0)"
    by (simp add: run_def)
  have r2: "run noOptions (checkSupport True initial)
        [CallStart, EvStart 0, CallStop, CallStart, EvStart 1, EvEnd 0]
             = step noOptions (run noOptions (stopListening ?s) [CallStart, EvStart 1]) (EvEnd 0)"
    by (simp add: run_def)
  have r3: "engineActive (run noOptions (stopListening ?s) [CallStart, EvStart 1]) = [1]"
    unfolding s
    by (simp add: run_def startListening_def stopListening_def recognitionStop_def
      newSpeechRecognition_def setRecognitionRef_def recognitionStart_def
      onstart_def setIsListening_def announce_def emit_def)
  note t = stopListening_suppresses_restart [OF h1 h2, of noOptions]
  from t have a: "trace (stopListening ?s) = trace ?s @ [SetRecognitionRef None, RecognitionStop 0, SetIsListening False,
                         Announce ''Voice commands deactivated.'']"
    by simp
  from t [THEN conjunct2, THEN spec, of "[]"]
  have b: "trace (step noOptions (run noOptions (stopListening ?s) []) (EvEnd 0))
      = trace (run noOptions (stopListening ?s) []) @ [SetIsListening False]"
    by simp
  from t [THEN conjunct2, THEN spec, of "[CallStart, EvStart 1]"]
  have c: "engineActive (step noOptions (run noOptions (stopListening ?s) [CallStart, EvStart 1]) (EvEnd 0))
      = removeAll 0 (engineActive (run noOptions (stopListening ?s) [CallStart, EvStart 1]))"
    by simp
  have b': "trace (run noOptions (stopListening ?s) []) = trace (stopListening ?s)"
    by (simp add: run_def)
  show ?thesis
    unfolding r1 r2 using a b c r3 b' by (simp add: s)
qed

text \<open>
  C7. An error event of kind \<open>not-allowed\<close> sets \<open>isListening\<close> to false whatever
  it was and speaks the permission notice once; the session handle and the running
  recognition objects are left as they are.
\<close>

theorem onerror_not_allowed:
  "onerror ''not-allowed'' s =
     s\<lparr> isListening := False,
        trace := trace s
          @ [ConsoleError [''Speech recognition error:'', ''not-allowed''],
             Speak ''Microphone permission denied. Please allow microphone access.'',
             SetIsListening False] \<rparr>
   \<and> isListening (onerror ''not-allowed'' s) = False
   \<and> recognitionRef (onerror ''not-allowed'' s) = recognitionRef s
   \<and> engineActive (onerror ''not-allowed'' s) = engineActive s"
  by (simp add: onerror_def setIsListening_def speak_def emit_def)

text \<open>
  C8. An error event of kind \<open>no-speech\<close> or \<open>aborted\<close> writes its console line
  and nothing else: \<open>isListening\<close> keeps its value, nothing is announced or spoken.
\<close>

theorem onerror_benign:
  "onerror ''no-speech'' s =
     s\<lparr> trace := trace s @ [ConsoleError [''Speech recognition error:'', ''no-speech'']] \<rparr>
   \<and> onerror ''aborted'' s =
     s\<lparr> trace := trace s @ [ConsoleError [''Speech recognition error:'', ''aborted'']] \<rparr>"
  by (simp add: onerror_def emit_def)

text \<open>
  C9. With no session handle owned, \<open>stopListening\<close> returns the state as it is:
  no field changes and nothing is announced. A second stop after a stop is such a call.
\<close>

theorem stopListening_idle_noop:
  "(recognitionRef s = None \<longrightarrow> stopListening s = s)
   \<and> stopListening (stopListening s) = stopListening s"
  by (simp add: stopListening_def setRecognitionRef_def recognitionStop_def setIsListening_def
      announce_def emit_def split: option.splits)

theorem stopListening_idle_noop_witness:
  "stopListening initial = initial
   \<and> stopListening (stopListening (startListening (checkSupport True initial)))
       = stopListening (startListening (checkSupport True initial))"
  using stopListening_idle_noop [of initial]
    stopListening_idle_noop [of "startListening (checkSupport True initial)"]
  by (simp add: initial_def)

subsection \<open>The Scan page's add callback\<close>

text \<open>
  C10. With no current product, \<open>onAdd\<close> speaks "No product selected. Please scan a
  product first." and dispatches no event; with a current product it speaks
  "Adding item to cart." and dispatches one \<open>keydown\<close> event with key "a".
\<close>

theorem scanOnAdd_effects:
  "(currentProduct state = None \<longrightarrow>
      scanOnAdd state = [Speak ''No product selected. Please scan a product first.''])
   \<and> (currentProduct state = Some p \<longrightarrow>
      scanOnAdd state =
        [Speak ''Adding item to cart.'',
         DispatchEvent \<lparr> evType = ''keydown'', evKey = ''a'', evCode = [],
           evCtrlKey = False, evShiftKey = False \<rparr>])"
  by (simp add: scanOnAdd_def keydown_def)

theorem scanOnAdd_effects_witness:
  "scanOnAdd \<lparr> currentProduct = (None :: nat option) \<rparr> =
      [Speak ''No product selected. Please scan a product first.'']
   \<and> scanOnAdd \<lparr> currentProduct = Some (7::nat) \<rparr> =
        [Speak ''Adding item to cart.'',
         DispatchEvent \<lparr> evType = ''keydown'', evKey = ''a'', evCode = [],
           evCtrlKey = False, evShiftKey = False \<rparr>]"
  using scanOnAdd_effects [of "\<lparr> currentProduct = (None :: nat option) \<rparr>" 7]
    scanOnAdd_effects [of "\<lparr> currentProduct = Some (7::nat) \<rparr>" 7]
  by simp

end
